theory Spec2Isabelle
  imports Main "HOL-Library.Sublist"
begin

section \<open>The rule-repair assistant of \<^verbatim>\<open>utils/ai/assistant/fix-rules.ts\<close>\<close>

text \<open>
  The development embeds \<^verbatim>\<open>processUserRequest\<close> and its helpers. Strings are
  \<^typ>\<open>string\<close>; a TypeScript value of type \<^verbatim>\<open>T | null\<close> or an optional
  property is a \<^typ>\<open>'a option\<close>. Calls to the logger have no effect on any result and
  are left out. The rule store (\<^verbatim>\<open>safeUpdateRule\<close>, \<^verbatim>\<open>safeCreateRule\<close>,
  \<^verbatim>\<open>addGroupItem\<close>, \<^verbatim>\<open>deleteGroupItem\<close>) is imported from other modules: a call
  to it is recorded as a value, with the arguments the source passes.
\<close>

subsection \<open>Data model\<close>

text \<open>
  Modelled from the spec: the Prisma enums \<^verbatim>\<open>GroupItemType\<close>, \<^verbatim>\<open>LogicalOperator\<close>
  and \<^verbatim>\<open>CategoryFilterType\<close> are declared outside the source files at hand. The spec
  gives a group item the types FROM and SUBJECT, the operator the values AND and OR, and
  the filter type the values INCLUDE and EXCLUDE. A Prisma enum value is the string of its
  name, which is what a template literal prints.
\<close>

datatype GroupItemType = FROM | SUBJECT

datatype LogicalOperator = AND | OR

datatype CategoryFilterType = INCLUDE | EXCLUDE

fun GroupItemType_string :: "GroupItemType \<Rightarrow> string" where
  "GroupItemType_string FROM = ''FROM''"
| "GroupItemType_string SUBJECT = ''SUBJECT''"

fun LogicalOperator_string :: "LogicalOperator \<Rightarrow> string" where
  "LogicalOperator_string AND = ''AND''"
| "LogicalOperator_string OR = ''OR''"

fun CategoryFilterType_string :: "CategoryFilterType \<Rightarrow> string" where
  "CategoryFilterType_string INCLUDE = ''INCLUDE''"
| "CategoryFilterType_string EXCLUDE = ''EXCLUDE''"

record GroupItem =
  item_id :: string
  item_type :: GroupItemType
  item_value :: string

record Group =
  group_id :: string
  group_name :: string
  group_items :: "GroupItem list option"

record Category =
  category_name :: string

text \<open>
  \<^verbatim>\<open>RuleWithRelations\<close>: the fields of a rule that the source reads. The type of an
  action is a parameter: the source only passes the list of actions on.
\<close>

record 'a Rule =
  rule_id :: string
  rule_name :: string
  rule_conditionalOperator :: LogicalOperator
  rule_instructions :: "string option"
  rule_from :: "string option"
  rule_to :: "string option"
  rule_subject :: "string option"
  rule_body :: "string option"
  rule_actions :: "'a list"
  rule_group :: "Group option"
  rule_categoryFilterType :: "CategoryFilterType option"
  rule_categoryFilters :: "Category list option"

subsection \<open>JavaScript helpers\<close>

text \<open>
  Truthiness of a \<^verbatim>\<open>string | null\<close>: \<^verbatim>\<open>null\<close> and the empty string are falsy.
  An array or an object is truthy whatever it holds.
\<close>

fun truthy :: "string option \<Rightarrow> bool" where
  "truthy None = False"
| "truthy (Some s) = (s \<noteq> [])"

text \<open>\<^verbatim>\<open>a || b\<close> is \<^verbatim>\<open>a\<close> when \<^verbatim>\<open>a\<close> is truthy and \<^verbatim>\<open>b\<close> otherwise.\<close>

definition js_or :: "string option \<Rightarrow> string option \<Rightarrow> string option" where
  "js_or a b = (if truthy a then a else b)"

text \<open>\<^verbatim>\<open>Array.prototype.join\<close> on an array of strings.\<close>

fun join :: "string \<Rightarrow> string list \<Rightarrow> string" where
  "join sep [] = []"
| "join sep [x] = x"
| "join sep (x # y # ys) = x @ sep @ join sep (y # ys)"

text \<open>\<^verbatim>\<open>Array.prototype.find\<close>: the first element that satisfies the predicate.\<close>

fun find_first :: "('a \<Rightarrow> bool) \<Rightarrow> 'a list \<Rightarrow> 'a option" where
  "find_first P [] = None"
| "find_first P (x # xs) = (if P x then Some x else find_first P xs)"

text \<open>The line break of a template literal.\<close>

definition NL :: string where
  "NL = [CHR 0x0A]"

subsection \<open>The rule serializer\<close>

definition hasStaticConditions :: "'a Rule \<Rightarrow> string option" where
  "hasStaticConditions rule =
     js_or (js_or (js_or (rule_from rule) (rule_to rule)) (rule_subject rule)) (rule_body rule)"

definition hasCategoryConditions :: "'a Rule \<Rightarrow> bool" where
  "hasCategoryConditions rule =
     (case rule_categoryFilters rule of None \<Rightarrow> False | Some cs \<Rightarrow> length cs > 0)"

definition itemToXML :: "GroupItem \<Rightarrow> string" where
  "itemToXML item =
     ''<item>'' @ NL @
     ''  <type>'' @ GroupItemType_string (item_type item) @ ''</type>'' @ NL @
     ''  <value>'' @ item_value item @ ''</value>'' @ NL @
     ''</item>''"

definition ruleToXML :: "'a Rule \<Rightarrow> string" where
  "ruleToXML rule =
     ''<rule>'' @ NL @
     ''  <rule_name>'' @ rule_name rule @ ''</rule_name>'' @ NL @
     ''  <conditions>'' @ NL @
     ''    <conditional_operator>'' @ LogicalOperator_string (rule_conditionalOperator rule)
       @ ''</conditional_operator>'' @ NL @
     ''    '' @ (if truthy (rule_instructions rule)
                 then ''<ai_instructions>'' @ the (rule_instructions rule) @ ''</ai_instructions>''
                 else '''') @ NL @
     ''    '' @ (if truthy (hasStaticConditions rule)
                 then ''<static_conditions>'' @ NL @
                      ''      '' @ (if truthy (rule_from rule)
                                    then ''<from>'' @ the (rule_from rule) @ ''</from>''
                                    else '''') @ NL @
                      ''      '' @ (if truthy (rule_to rule)
                                    then ''<to>'' @ the (rule_to rule) @ ''</to>''
                                    else '''') @ NL @
                      ''      '' @ (if truthy (rule_subject rule)
                                    then ''<subject>'' @ the (rule_subject rule) @ ''</subject>''
                                    else '''') @ NL @
                      ''      '' @ (if truthy (rule_body rule)
                                    then ''<body>'' @ the (rule_body rule) @ ''</body>''
                                    else '''') @ NL @
                      ''    </static_conditions>''
                 else '''') @ NL @
     ''    '' @ (case rule_group rule of
                   Some g \<Rightarrow>
                      ''<group_condition>'' @ NL @
                      ''      <group>'' @ group_name g @ ''</group>'' @ NL @
                      ''      <group_items>'' @ NL @
                      ''        '' @ (case group_items g of
                                        Some items \<Rightarrow> join (NL @ ''      '') (map itemToXML items)
                                      | None \<Rightarrow> ''No group items'') @ NL @
                      ''      </group_items>'' @ NL @
                      ''    </group_condition>''
                 | None \<Rightarrow> '''') @ NL @
     ''    '' @ (if hasCategoryConditions rule
                 then ''<category_conditions>'' @ NL @
                      ''      '' @ (case rule_categoryFilterType rule of
                                      Some ft \<Rightarrow> ''<filter_type>'' @ CategoryFilterType_string ft
                                                   @ ''</filter_type>''
                                    | None \<Rightarrow> '''') @ NL @
                      ''      '' @ (case rule_categoryFilters rule of
                                      Some cs \<Rightarrow>
                                        join (NL @ ''      '')
                                          (map (\<lambda>category. ''<category>'' @ category_name category
                                                  @ ''</category>'') cs)
                                    | None \<Rightarrow> ''undefined'') @ NL @
                      ''    </category_conditions>''
                 else '''') @ NL @
     ''  </conditions>'' @ NL @
     ''</rule>''"

subsection \<open>Session, store calls and tool payloads\<close>

text \<open>
  The arguments of \<^verbatim>\<open>processUserRequest\<close> that the tools read. The two e-mails, the
  Gmail client and the sender's category only enter the prompt text.
\<close>

record 'a Session =
  user_id :: string
  rules :: "'a Rule list"
  matchedRule :: "'a Rule option"
  categories :: "string list option"

text \<open>
  The request of \<^verbatim>\<open>safeUpdateRule(id, {name, condition, actions}, userId, groupId,
  categoryIds)\<close> and of \<^verbatim>\<open>safeCreateRule({name, condition, actions}, userId, groupId,
  categoryIds)\<close>. The condition (\<^verbatim>\<open>createRuleSchema.shape.condition\<close>) and the actions
  of the create schema are types of another module: they are the parameters \<^typ>\<open>'c\<close>
  and \<^typ>\<open>'b\<close>.
\<close>

record ('a, 'c) UpdateRequest =
  upd_ruleId :: string
  upd_name :: string
  upd_condition :: 'c
  upd_actions :: "'a list"
  upd_userId :: string
  upd_groupId :: "string option"
  upd_categoryIds :: "string list option"

record ('b, 'c) CreateRequest =
  crt_name :: string
  crt_condition :: 'c
  crt_actions :: "'b list"
  crt_userId :: string
  crt_groupId :: "string option"
  crt_categoryIds :: "string list option"

datatype ('a, 'b, 'c) StoreCall =
    SafeUpdateRule "('a, 'c) UpdateRequest"
  | SafeCreateRule "('b, 'c) CreateRequest"
  | AddGroupItem string GroupItemType string
  | DeleteGroupItem string string

text \<open>The payload of a tool: \<^verbatim>\<open>{ success: true }\<close> or \<^verbatim>\<open>{ error: msg }\<close>.\<close>

datatype Payload = Success | Error string

text \<open>The value of a parameter declared \<^verbatim>\<open>z.enum(["from", "subject"])\<close>.\<close>

datatype ItemTypeArg = Arg_from | Arg_subject

fun ItemTypeArg_string :: "ItemTypeArg \<Rightarrow> string" where
  "ItemTypeArg_string Arg_from = ''from''"
| "ItemTypeArg_string Arg_subject = ''subject''"

definition getGroupItemType :: "string \<Rightarrow> GroupItemType option" where
  "getGroupItemType type =
     (if type = ''from'' then Some FROM
      else if type = ''subject'' then Some SUBJECT
      else None)"

subsection \<open>The execute steps of the tools\<close>

definition edit_rule_execute ::
  "'a Session \<Rightarrow> string option \<Rightarrow> string \<Rightarrow> 'c \<Rightarrow> Payload \<times> ('a, 'b, 'c) StoreCall list" where
  "edit_rule_execute s ruleName explanation condition =
     (let rule = (if truthy ruleName
                  then find_first (\<lambda>r. rule_name r = the ruleName) (rules s)
                  else matchedRule s)
      in case rule of
           None \<Rightarrow> (Error ''Rule not found'', [])
         | Some r \<Rightarrow>
             (Success,
              [SafeUpdateRule
                 \<lparr>upd_ruleId = rule_id r, upd_name = rule_name r, upd_condition = condition,
                  upd_actions = rule_actions r, upd_userId = user_id s,
                  upd_groupId = None, upd_categoryIds = None\<rparr>]))"

definition create_rule_execute ::
  "'a Session \<Rightarrow> string \<Rightarrow> 'c \<Rightarrow> 'b list \<Rightarrow> Payload \<times> ('a, 'b, 'c) StoreCall list" where
  "create_rule_execute s name condition actions =
     (Success,
      [SafeCreateRule
         \<lparr>crt_name = name, crt_condition = condition, crt_actions = actions,
          crt_userId = user_id s, crt_groupId = None, crt_categoryIds = None\<rparr>])"

definition change_sender_category_execute ::
  "string \<Rightarrow> string \<Rightarrow> Payload \<times> ('a, 'b, 'c) StoreCall list" where
  "change_sender_category_execute sender category = (Success, [])"

definition add_to_group_execute ::
  "'a Session \<Rightarrow> string option \<Rightarrow> ItemTypeArg \<Rightarrow> string
     \<Rightarrow> Payload \<times> ('a, 'b, 'c) StoreCall list" where
  "add_to_group_execute s groupName type value =
     (let groupId =
            (case find_first (\<lambda>r. map_option group_name (rule_group r) = groupName) (rules s) of
               None \<Rightarrow> None
             | Some r \<Rightarrow> map_option group_id (rule_group r))
      in if \<not> truthy groupId then (Error ''Group not found'', [])
         else (case getGroupItemType (ItemTypeArg_string type) of
                 None \<Rightarrow> (Error ''Invalid group item type'', [])
               | Some groupItemType \<Rightarrow>
                   (Success, [AddGroupItem (the groupId) groupItemType value])))"

definition remove_from_group_execute ::
  "'a Session \<Rightarrow> ItemTypeArg \<Rightarrow> string \<Rightarrow> Payload \<times> ('a, 'b, 'c) StoreCall list" where
  "remove_from_group_execute s type value =
     (case getGroupItemType (ItemTypeArg_string type) of
        None \<Rightarrow> (Error ''Invalid group item type'', [])
      | Some groupItemType \<Rightarrow>
          (let groupItem =
                 (case matchedRule s of
                    None \<Rightarrow> None
                  | Some r \<Rightarrow>
                      (case rule_group r of
                         None \<Rightarrow> None
                       | Some g \<Rightarrow>
                           (case group_items g of
                              None \<Rightarrow> None
                            | Some items \<Rightarrow>
                                find_first
                                  (\<lambda>item. item_type item = groupItemType \<and> item_value item = value)
                                  items)))
           in case groupItem of
                None \<Rightarrow> (Error ''Group item not found'', [])
              | Some gi \<Rightarrow> (Success, [DeleteGroupItem (item_id gi) (user_id s)])))"

subsection \<open>The tool registry of a session\<close>

text \<open>
  The keys of the \<^verbatim>\<open>tools\<close> object passed to \<^verbatim>\<open>chatCompletionTools\<close>, in the
  order of the object literal with its two conditional spreads. \<^verbatim>\<open>categories\<close> is an
  array or \<^verbatim>\<open>null\<close>, \<^verbatim>\<open>matchedRule?.group\<close> an object, \<^verbatim>\<open>null\<close> or
  \<^verbatim>\<open>undefined\<close>.
\<close>

definition tools :: "'a Session \<Rightarrow> string list" where
  "tools s =
     [''edit_rule'', ''create_rule'']
     @ (if categories s \<noteq> None then [''change_sender_category''] else [])
     @ [''add_to_group'']
     @ (if (case matchedRule s of None \<Rightarrow> False | Some r \<Rightarrow> rule_group r \<noteq> None)
        then [''remove_from_group''] else [])
     @ [''reply'']"

text \<open>A tool call chosen by the language model: the tool with arguments of its schema.\<close>

datatype ('b, 'c) ToolCall =
    Edit_rule "string option" string 'c
  | Create_rule string 'c "'b list"
  | Change_sender_category string string
  | Add_to_group "string option" ItemTypeArg string
  | Remove_from_group ItemTypeArg string
  | Reply string

fun toolName :: "('b, 'c) ToolCall \<Rightarrow> string" where
  "toolName (Edit_rule ruleName explanation condition) = ''edit_rule''"
| "toolName (Create_rule name condition actions) = ''create_rule''"
| "toolName (Change_sender_category sender category) = ''change_sender_category''"
| "toolName (Add_to_group groupName type value) = ''add_to_group''"
| "toolName (Remove_from_group type value) = ''remove_from_group''"
| "toolName (Reply content) = ''reply''"

text \<open>
  The execute function of the tool a call names; \<^const>\<open>None\<close> for \<^verbatim>\<open>reply\<close>, which is
  declared without one.
\<close>

fun execute ::
  "'a Session \<Rightarrow> ('b, 'c) ToolCall \<Rightarrow> (Payload \<times> ('a, 'b, 'c) StoreCall list) option" where
  "execute s (Edit_rule ruleName explanation condition) =
     Some (edit_rule_execute s ruleName explanation condition)"
| "execute s (Create_rule name condition actions) =
     Some (create_rule_execute s name condition actions)"
| "execute s (Change_sender_category sender category) =
     Some (change_sender_category_execute sender category)"
| "execute s (Add_to_group groupName type value) =
     Some (add_to_group_execute s groupName type value)"
| "execute s (Remove_from_group type value) =
     Some (remove_from_group_execute s type value)"
| "execute s (Reply content) = None"

subsection \<open>The repair orchestrator\<close>

text \<open>
  Modelled from the spec: the entries of the tool-call log, whose type is declared with
  \<^verbatim>\<open>chatCompletionTools\<close> outside the source files at hand. A step leaves the call
  and its outcome: the payload of the execute function, a rejection before execute (the
  call names a tool that the session does not expose), or nothing, for the tool without
  an execute function.
\<close>

datatype StepResult = Executed Payload | Rejected | NoExecute

text \<open>
  Modelled from the spec: the decision-maker interface, which is the language-model
  service behind \<^verbatim>\<open>chatCompletionTools\<close>. It answers the conversation so far with a
  tool call or with a terminal free-text reply.
\<close>

datatype ('b, 'c) Decision = Call "('b, 'c) ToolCall" | Text string

text \<open>
  Modelled from the spec: what a session returns, the terminal reply (if any) and the
  tool-call log; the calls made to the store are returned beside them.
\<close>

record ('a, 'b, 'c) SessionResult =
  terminalReply :: "string option"
  toolCallLog :: "(('b, 'c) ToolCall \<times> StepResult) list"
  storeCalls :: "('a, 'b, 'c) StoreCall list"

text \<open>
  Modelled from the spec: \<^verbatim>\<open>chatCompletionTools\<close> of \<^verbatim>\<open>@/utils/llms\<close>, which runs
  the tool loop, is not among the source files. The spec's orchestrator deliberates once
  per step, under a fixed bound on the number of steps: a terminal free-text reply ends
  the session; a call that fails validation is rejected before execute and reported to
  the decision-maker, with no mutation; the terminal tool (the one without an execute
  step) ends the session, its argument being the message for the user; any other tool is
  executed, its payload appended to the conversation, and the loop goes on. When the
  budget is exhausted the session ends without a terminal reply and the log is returned.
  The first argument is the number of steps left, the last two are the conversation and
  the store calls made so far.
\<close>

fun chatCompletionTools ::
  "nat \<Rightarrow> ((('b, 'c) ToolCall \<times> StepResult) list \<Rightarrow> ('b, 'c) Decision) \<Rightarrow> 'a Session
     \<Rightarrow> (('b, 'c) ToolCall \<times> StepResult) list \<Rightarrow> ('a, 'b, 'c) StoreCall list
     \<Rightarrow> ('a, 'b, 'c) SessionResult" where
  "chatCompletionTools 0 dm s conv st =
     \<lparr>terminalReply = None, toolCallLog = conv, storeCalls = st\<rparr>"
| "chatCompletionTools (Suc n) dm s conv st =
     (case dm conv of
        Text t \<Rightarrow> \<lparr>terminalReply = Some t, toolCallLog = conv, storeCalls = st\<rparr>
      | Call tc \<Rightarrow>
          if toolName tc \<notin> set (tools s)
          then chatCompletionTools n dm s (conv @ [(tc, Rejected)]) st
          else (case execute s tc of
                  None \<Rightarrow>
                    \<lparr>terminalReply = (case tc of Reply content \<Rightarrow> Some content | _ \<Rightarrow> None),
                     toolCallLog = conv @ [(tc, NoExecute)], storeCalls = st\<rparr>
                | Some (payload, calls) \<Rightarrow>
                    chatCompletionTools n dm s (conv @ [(tc, Executed payload)]) (st @ calls)))"

definition maxSteps :: nat where
  "maxSteps = 5"

text \<open>
  \<^verbatim>\<open>processUserRequest\<close> hands the registry and \<^verbatim>\<open>maxSteps: 5\<close> to
  \<^verbatim>\<open>chatCompletionTools\<close> and returns its result. The language model is the
  parameter \<open>dm\<close>; the system text and the prompt are read by it alone.
\<close>

definition processUserRequest ::
  "((('b, 'c) ToolCall \<times> StepResult) list \<Rightarrow> ('b, 'c) Decision) \<Rightarrow> 'a Session
     \<Rightarrow> ('a, 'b, 'c) SessionResult" where
  "processUserRequest dm s = chatCompletionTools maxSteps dm s [] []"

subsection \<open>Notions of the specification\<close>

text \<open>
  The static-conditions block as the spec describes it, for the four values of
  \<^verbatim>\<open>from\<close>, \<^verbatim>\<open>to\<close>, \<^verbatim>\<open>subject\<close> and \<^verbatim>\<open>body\<close>: a field is set when it
  holds a non-empty string; a set field is emitted as an element of its name, a field
  that is not set is omitted; the block is omitted when no field is set. The layout of the
  block (one line per field, in this order) is the source's.
\<close>

definition is_set :: "string option \<Rightarrow> bool" where
  "is_set v = (case v of None \<Rightarrow> False | Some [] \<Rightarrow> False | Some (x # xs) \<Rightarrow> True)"

definition static_field :: "string \<Rightarrow> string option \<Rightarrow> string" where
  "static_field tag v =
     (case v of
        None \<Rightarrow> []
      | Some [] \<Rightarrow> []
      | Some (x # xs) \<Rightarrow> ''<'' @ tag @ ''>'' @ x # xs @ ''</'' @ tag @ ''>'')"

definition static_conditions_block ::
  "string option \<Rightarrow> string option \<Rightarrow> string option \<Rightarrow> string option \<Rightarrow> string" where
  "static_conditions_block f t sb b =
     (if is_set f \<or> is_set t \<or> is_set sb \<or> is_set b
      then ''<static_conditions>'' @ NL @
           ''      '' @ static_field ''from'' f @ NL @
           ''      '' @ static_field ''to'' t @ NL @
           ''      '' @ static_field ''subject'' sb @ NL @
           ''      '' @ static_field ''body'' b @ NL @
           ''    </static_conditions>''
      else [])"

text \<open>
  The items of the matched rule's group; none when there is no matched rule, the rule has
  no group or the group carries no item list.
\<close>

definition matched_group_items :: "'a Session \<Rightarrow> GroupItem list" where
  "matched_group_items s =
     (case matchedRule s of
        None \<Rightarrow> []
      | Some r \<Rightarrow>
          (case rule_group r of
             None \<Rightarrow> []
           | Some g \<Rightarrow> (case group_items g of None \<Rightarrow> [] | Some items \<Rightarrow> items)))"

text \<open>The persisted item type that a requested type stands for.\<close>

fun requested_type :: "ItemTypeArg \<Rightarrow> GroupItemType" where
  "requested_type Arg_from = FROM"
| "requested_type Arg_subject = SUBJECT"

text \<open>Steps that ran an execute function, and calls of the terminal tool.\<close>

fun executed :: "StepResult \<Rightarrow> bool" where
  "executed (Executed payload) = True"
| "executed Rejected = False"
| "executed NoExecute = False"

fun is_reply :: "('b, 'c) ToolCall \<Rightarrow> bool" where
  "is_reply (Reply content) = True"
| "is_reply (Edit_rule ruleName explanation condition) = False"
| "is_reply (Create_rule name condition actions) = False"
| "is_reply (Change_sender_category sender category) = False"
| "is_reply (Add_to_group groupName type value) = False"
| "is_reply (Remove_from_group type value) = False"

definition reply_free :: "(('b, 'c) ToolCall \<times> StepResult) list \<Rightarrow> bool" where
  "reply_free conv = list_all (\<lambda>e. \<not> is_reply (fst e)) conv"

text \<open>
  What one chosen call amounts to in a session: its outcome in the log and the calls it
  makes to the store. A call of a tool that the session does not expose is rejected and a
  call of the tool without an execute function is not executed; neither reaches the store.
\<close>

definition step_outcome ::
  "'a Session \<Rightarrow> ('b, 'c) ToolCall \<Rightarrow> StepResult \<times> ('a, 'b, 'c) StoreCall list" where
  "step_outcome s tc =
     (if toolName tc \<notin> set (tools s) then (Rejected, [])
      else (case execute s tc of
              None \<Rightarrow> (NoExecute, [])
            | Some (payload, calls) \<Rightarrow> (Executed payload, calls)))"

text \<open>
  A run of steps that continues a conversation: each entry is the call that the
  decision-maker chooses on the conversation before it, with the outcome of that call.
\<close>

fun steps_of ::
  "((('b, 'c) ToolCall \<times> StepResult) list \<Rightarrow> ('b, 'c) Decision) \<Rightarrow> 'a Session
     \<Rightarrow> (('b, 'c) ToolCall \<times> StepResult) list \<Rightarrow> (('b, 'c) ToolCall \<times> StepResult) list
     \<Rightarrow> bool" where
  "steps_of dm s conv [] = True"
| "steps_of dm s conv (e # ys) =
     (dm conv = Call (fst e) \<and> snd e = fst (step_outcome s (fst e))
      \<and> steps_of dm s (conv @ [e]) ys)"

subsection \<open>The scenarios of the specification\<close>

text \<open>
  The rule \<^verbatim>\<open>Newsletter\<close> (\<^verbatim>\<open>from = "news@"\<close>, operator AND, no group) and a rule
  with the group \<^verbatim>\<open>Receipts\<close> holding the item (SUBJECT, \<^verbatim>\<open>Invoice\<close>), with a session
  that matched no rule and a session that matched the second. Actions and conditions are
  numbers here. The third rule has a group whose item list is the empty array.
\<close>

definition newsletter :: "nat Rule" where
  "newsletter =
     \<lparr>rule_id = ''r1'', rule_name = ''Newsletter'', rule_conditionalOperator = AND,
      rule_instructions = None, rule_from = Some ''news@'', rule_to = None,
      rule_subject = None, rule_body = None, rule_actions = [1], rule_group = None,
      rule_categoryFilterType = None, rule_categoryFilters = None\<rparr>"

definition receipts :: "nat Rule" where
  "receipts =
     \<lparr>rule_id = ''r2'', rule_name = ''Receipts'', rule_conditionalOperator = AND,
      rule_instructions = None, rule_from = None, rule_to = None,
      rule_subject = None, rule_body = None, rule_actions = [2],
      rule_group =
        Some \<lparr>group_id = ''g1'', group_name = ''Receipts'',
              group_items =
                Some [\<lparr>item_id = ''i1'', item_type = SUBJECT, item_value = ''Invoice''\<rparr>]\<rparr>,
      rule_categoryFilterType = None, rule_categoryFilters = None\<rparr>"

definition receipts_no_items :: "nat Rule" where
  "receipts_no_items =
     \<lparr>rule_id = ''r3'', rule_name = ''Receipts'', rule_conditionalOperator = AND,
      rule_instructions = None, rule_from = None, rule_to = None,
      rule_subject = None, rule_body = None, rule_actions = [],
      rule_group = Some \<lparr>group_id = ''g2'', group_name = ''Receipts'', group_items = Some []\<rparr>,
      rule_categoryFilterType = None, rule_categoryFilters = None\<rparr>"

definition session_unmatched :: "nat Session" where
  "session_unmatched =
     \<lparr>user_id = ''u1'', rules = [newsletter], matchedRule = None, categories = None\<rparr>"

definition session_matched :: "nat Session" where
  "session_matched =
     \<lparr>user_id = ''u1'', rules = [newsletter, receipts], matchedRule = Some receipts,
      categories = Some [''Marketing'']\<rparr>"

text \<open>
  Two decision-makers: one asks at every step to add the sender pattern \<^verbatim>\<open>@shop.com\<close> to
  the group \<^verbatim>\<open>Receipts\<close>; the other edits the rule \<^verbatim>\<open>Newsletter\<close> and then replies.
\<close>

definition keeps_adding ::
  "((nat, nat) ToolCall \<times> StepResult) list \<Rightarrow> (nat, nat) Decision" where
  "keeps_adding conv = Call (Add_to_group (Some ''Receipts'') Arg_from ''@shop.com'')"

definition edits_then_replies ::
  "((nat, nat) ToolCall \<times> StepResult) list \<Rightarrow> (nat, nat) Decision" where
  "edits_then_replies conv =
     (if conv = [] then Call (Edit_rule (Some ''Newsletter'') ''add a subject'' 7)
      else Call (Reply ''Done.''))"

section \<open>Properties\<close>

subsection \<open>Auxiliary facts\<close>

lemma find_first_None_iff: "find_first P xs = None \<longleftrightarrow> (\<forall>x\<in>set xs. \<not> P x)"
  by (induction xs) auto

lemma find_first_SomeD: "find_first P xs = Some x \<Longrightarrow> x \<in> set xs \<and> P x"
  by (induction xs) (auto split: if_splits)

lemma truthy_is_set: "truthy v = is_set v"
  by (cases v) (auto simp: is_set_def split: list.splits)

lemma truthy_hasStaticConditions:
  "truthy (hasStaticConditions r) \<longleftrightarrow>
     is_set (rule_from r) \<or> is_set (rule_to r) \<or> is_set (rule_subject r) \<or> is_set (rule_body r)"
  by (auto simp: hasStaticConditions_def js_or_def truthy_is_set)

lemma static_field_from:
  "(if truthy v then ''<from>'' @ the v @ ''</from>'' else '''') = static_field ''from'' v"
  by (cases v) (auto simp: static_field_def split: list.splits)

lemma static_field_to:
  "(if truthy v then ''<to>'' @ the v @ ''</to>'' else '''') = static_field ''to'' v"
  by (cases v) (auto simp: static_field_def split: list.splits)

lemma static_field_subject:
  "(if truthy v then ''<subject>'' @ the v @ ''</subject>'' else '''') = static_field ''subject'' v"
  by (cases v) (auto simp: static_field_def split: list.splits)

lemma static_field_body:
  "(if truthy v then ''<body>'' @ the v @ ''</body>'' else '''') = static_field ''body'' v"
  by (cases v) (auto simp: static_field_def split: list.splits)

lemma hasCategoryConditions_static:
  "hasCategoryConditions (r\<lparr>rule_from := f, rule_to := t, rule_subject := sb, rule_body := b\<rparr>)
     = hasCategoryConditions r"
  by (simp add: hasCategoryConditions_def)

text \<open>
  Whatever the four static fields of a rule hold, the serialized rule is one fixed text
  before, the static-conditions block of the four values, and one fixed text after; the
  element of the conditional operator lies in the text before.
\<close>

lemma ruleToXML_static_context:
  "\<exists>pre post.
     sublist (''<conditional_operator>'' @ LogicalOperator_string (rule_conditionalOperator r)
                @ ''</conditional_operator>'') pre \<and>
     (\<forall>f t sb b.
        ruleToXML (r\<lparr>rule_from := f, rule_to := t, rule_subject := sb, rule_body := b\<rparr>)
          = pre @ static_conditions_block f t sb b @ post)"
proof -
  let ?op = "''<conditional_operator>'' @ LogicalOperator_string (rule_conditionalOperator r)
                @ ''</conditional_operator>''"
  let ?A = "''<rule>'' @ NL @ ''  <rule_name>'' @ rule_name r @ ''</rule_name>'' @ NL @
     ''  <conditions>'' @ NL @ ''    ''"
  let ?B = "NL @
      ''    '' @ (if truthy (rule_instructions r)
                  then ''<ai_instructions>'' @ the (rule_instructions r) @ ''</ai_instructions>''
                  else '''') @ NL @
      ''    ''"
  let ?post = "NL @
     ''    '' @ (case rule_group r of
                   Some g \<Rightarrow>
                      ''<group_condition>'' @ NL @
                      ''      <group>'' @ group_name g @ ''</group>'' @ NL @
                      ''      <group_items>'' @ NL @
                      ''        '' @ (case group_items g of
                                        Some items \<Rightarrow> join (NL @ ''      '') (map itemToXML items)
                                      | None \<Rightarrow> ''No group items'') @ NL @
                      ''      </group_items>'' @ NL @
                      ''    </group_condition>''
                 | None \<Rightarrow> '''') @ NL @
     ''    '' @ (if hasCategoryConditions r
                 then ''<category_conditions>'' @ NL @
                      ''      '' @ (case rule_categoryFilterType r of
                                      Some ft \<Rightarrow> ''<filter_type>'' @ CategoryFilterType_string ft
                                                   @ ''</filter_type>''
                                    | None \<Rightarrow> '''') @ NL @
                      ''      '' @ (case rule_categoryFilters r of
                                      Some cs \<Rightarrow>
                                        join (NL @ ''      '')
                                          (map (\<lambda>category. ''<category>'' @ category_name category
                                                  @ ''</category>'') cs)
                                    | None \<Rightarrow> ''undefined'') @ NL @
                      ''    </category_conditions>''
                 else '''') @ NL @
     ''  </conditions>'' @ NL @
     ''</rule>''"
  have "\<forall>f t sb b.
        ruleToXML (r\<lparr>rule_from := f, rule_to := t, rule_subject := sb, rule_body := b\<rparr>)
          = (?A @ ?op @ ?B) @ static_conditions_block f t sb b @ ?post"
    unfolding ruleToXML_def static_conditions_block_def
    apply (simp only: static_field_from static_field_to static_field_subject static_field_body
        truthy_hasStaticConditions hasCategoryConditions_static)
    apply (simp split del: if_split cong: if_cong option.case_cong)
    done
  moreover have "sublist ?op (?A @ ?op @ ?B)"
    unfolding sublist_def by blast
  ultimately show ?thesis by blast
qed

lemma execute_None_iff: "execute s tc = None \<longleftrightarrow> is_reply tc"
  by (cases tc) auto

lemma toolName_reply_iff: "toolName tc = ''reply'' \<longleftrightarrow> is_reply tc"
  by (cases tc) auto

lemma reply_in_tools: "''reply'' \<in> set (tools s)"
  by (simp add: tools_def)

text \<open>The entries of a run of steps, by position.\<close>

lemma steps_of_nth:
  "steps_of dm s conv ys \<Longrightarrow> i < length ys \<Longrightarrow>
   dm (conv @ take i ys) = Call (fst (ys ! i)) \<and>
   snd (ys ! i) = fst (step_outcome s (fst (ys ! i)))"
proof (induction ys arbitrary: conv i)
  case Nil
  then show ?case by simp
next
  case (Cons e ys)
  show ?case
  proof (cases i)
    case 0
    with Cons.prems show ?thesis by simp
  next
    case (Suc j)
    with Cons.prems have "steps_of dm s (conv @ [e]) ys" "j < length ys" by simp_all
    from Cons.IH [OF this] Suc show ?thesis by simp
  qed
qed

text \<open>
  What the loop returns, from any conversation and budget: the conversation extended by a
  run of at most as many steps as the budget allows, with the store calls of these steps
  appended in order; when the run is shorter than the budget, the decision-maker ended
  the session, by a free-text reply or by the terminal tool.
\<close>

lemma run_trace:
  "\<exists>ys. toolCallLog (chatCompletionTools n dm s conv st) = conv @ ys \<and>
        length ys \<le> n \<and>
        steps_of dm s conv ys \<and>
        storeCalls (chatCompletionTools n dm s conv st)
          = st @ concat (map (\<lambda>e. snd (step_outcome s (fst e))) ys) \<and>
        (length ys < n \<longrightarrow>
           (\<exists>t. dm (conv @ ys) = Text t
                \<and> terminalReply (chatCompletionTools n dm s conv st) = Some t) \<or>
           (\<exists>c. ys \<noteq> [] \<and> last ys = (Reply c, NoExecute)
                \<and> terminalReply (chatCompletionTools n dm s conv st) = Some c))"
proof (induction n arbitrary: conv st)
  case 0
  show ?case by simp
next
  case (Suc n)
  show ?case
  proof (cases "dm conv")
    case (Text t)
    then show ?thesis by simp
  next
    case (Call tc)
    show ?thesis
    proof (cases "toolName tc \<in> set (tools s)")
      case False
      let ?e = "(tc, Rejected)"
      from Suc.IH [of "conv @ [?e]" st] obtain ys where
        ys: "toolCallLog (chatCompletionTools n dm s (conv @ [?e]) st) = (conv @ [?e]) @ ys"
          "length ys \<le> n" "steps_of dm s (conv @ [?e]) ys"
          "storeCalls (chatCompletionTools n dm s (conv @ [?e]) st)
             = st @ concat (map (\<lambda>e. snd (step_outcome s (fst e))) ys)"
          "length ys < n \<longrightarrow>
           (\<exists>t. dm ((conv @ [?e]) @ ys) = Text t
                \<and> terminalReply (chatCompletionTools n dm s (conv @ [?e]) st) = Some t) \<or>
           (\<exists>c. ys \<noteq> [] \<and> last ys = (Reply c, NoExecute)
                \<and> terminalReply (chatCompletionTools n dm s (conv @ [?e]) st) = Some c)"
        by blast
      have run: "chatCompletionTools (Suc n) dm s conv st
                   = chatCompletionTools n dm s (conv @ [?e]) st"
        using Call False by simp
      have out: "step_outcome s tc = (Rejected, [])"
        using False by (simp add: step_outcome_def)
      show ?thesis
        unfolding run using ys Call out
        by (intro exI [of _ "?e # ys"]) auto
    next
      case True
      show ?thesis
      proof (cases "execute s tc")
        case None
        then obtain c where c: "tc = Reply c" by (cases tc) auto
        have out: "step_outcome s tc = (NoExecute, [])"
          using True None by (simp add: step_outcome_def)
        show ?thesis
          using Call True None c out
          by (intro exI [of _ "[(tc, NoExecute)]"]) simp
      next
        case (Some pc)
        obtain p cs where pc: "pc = (p, cs)" by (cases pc)
        let ?e = "(tc, Executed p)"
        from Suc.IH [of "conv @ [?e]" "st @ cs"] obtain ys where
          ys: "toolCallLog (chatCompletionTools n dm s (conv @ [?e]) (st @ cs))
                 = (conv @ [?e]) @ ys"
            "length ys \<le> n" "steps_of dm s (conv @ [?e]) ys"
            "storeCalls (chatCompletionTools n dm s (conv @ [?e]) (st @ cs))
               = (st @ cs) @ concat (map (\<lambda>e. snd (step_outcome s (fst e))) ys)"
            "length ys < n \<longrightarrow>
             (\<exists>t. dm ((conv @ [?e]) @ ys) = Text t
                  \<and> terminalReply (chatCompletionTools n dm s (conv @ [?e]) (st @ cs)) = Some t) \<or>
             (\<exists>c. ys \<noteq> [] \<and> last ys = (Reply c, NoExecute)
                  \<and> terminalReply (chatCompletionTools n dm s (conv @ [?e]) (st @ cs)) = Some c)"
          by blast
        have run: "chatCompletionTools (Suc n) dm s conv st
                     = chatCompletionTools n dm s (conv @ [?e]) (st @ cs)"
          using Call True Some pc by simp
        have out: "step_outcome s tc = (Executed p, cs)"
          using True Some pc by (simp add: step_outcome_def)
        show ?thesis
          unfolding run using ys Call out
          by (intro exI [of _ "?e # ys"]) auto
      qed
    qed
  qed
qed

text \<open>A decision-maker that always calls a tool other than the terminal one uses up the budget.\<close>

lemma never_terminal_runs_budget:
  assumes dm: "\<forall>conv. \<exists>tc. dm conv = Call tc \<and> toolName tc \<noteq> ''reply''"
  shows "terminalReply (chatCompletionTools n dm s conv st) = None \<and>
         length (toolCallLog (chatCompletionTools n dm s conv st)) = length conv + n"
proof (induction n arbitrary: conv st)
  case 0
  show ?case by simp
next
  case (Suc n)
  from dm obtain tc where tc: "dm conv = Call tc" "toolName tc \<noteq> ''reply''" by blast
  then have nr: "execute s tc \<noteq> None"
    by (simp add: execute_None_iff toolName_reply_iff)
  show ?case
  proof (cases "toolName tc \<in> set (tools s)")
    case False
    with tc Suc.IH [of "conv @ [(tc, Rejected)]" st] show ?thesis by simp
  next
    case True
    from nr obtain p cs where "execute s tc = Some (p, cs)" by (cases "execute s tc") auto
    with tc True Suc.IH [of "conv @ [(tc, Executed p)]" "st @ cs"] show ?thesis by simp
  qed
qed

text \<open>
  Started from a conversation without a call of the terminal tool, the loop returns a log
  that has none either, or has exactly one, as its last entry.
\<close>

lemma reply_only_last:
  "reply_free conv \<Longrightarrow>
   reply_free (toolCallLog (chatCompletionTools n dm s conv st)) \<or>
   (\<exists>bl c. toolCallLog (chatCompletionTools n dm s conv st) = bl @ [(Reply c, NoExecute)]
           \<and> reply_free bl
           \<and> terminalReply (chatCompletionTools n dm s conv st) = Some c)"
proof (induction n arbitrary: conv st)
  case 0
  then show ?case by simp
next
  case (Suc n)
  show ?case
  proof (cases "dm conv")
    case (Text t)
    with Suc.prems show ?thesis by simp
  next
    case (Call tc)
    show ?thesis
    proof (cases "toolName tc \<in> set (tools s)")
      case False
      then have "\<not> is_reply tc"
        using reply_in_tools [of s] by (auto simp: toolName_reply_iff [symmetric])
      with Suc.prems have "reply_free (conv @ [(tc, Rejected)])"
        by (simp add: reply_free_def)
      from Suc.IH [OF this, of st] Call False show ?thesis by simp
    next
      case True
      show ?thesis
      proof (cases "execute s tc")
        case None
        then obtain c where "tc = Reply c" by (cases tc) auto
        with Call True None Suc.prems show ?thesis by simp
      next
        case (Some pc)
        obtain p cs where pc: "pc = (p, cs)" by (cases pc)
        from Some have "\<not> is_reply tc" by (cases tc) auto
        with Suc.prems have "reply_free (conv @ [(tc, Executed p)])"
          by (simp add: reply_free_def)
        from Suc.IH [OF this, of "st @ cs"] Call True Some pc show ?thesis by simp
      qed
    qed
  qed
qed

subsection \<open>The tools\<close>

text \<open>
  C1, as amended. \<^verbatim>\<open>edit_rule\<close> tests \<^verbatim>\<open>ruleName\<close> for truthiness, so the empty
  string counts as no name. When \<^verbatim>\<open>ruleName\<close> is a non-empty string, the target is the
  first rule of the session's rule set with exactly that name, and when no rule has that
  name the tool returns the payload \<^verbatim>\<open>{ error: "Rule not found" }\<close> and calls the store
  not at all. When \<^verbatim>\<open>ruleName\<close> is unset or the empty string, the target is the
  session's matched rule, and when there is none the tool returns the same error
  and makes no store call. The target is the rule whose id and name the update carries.
\<close>

theorem edit_rule_resolution:
  "(ruleName = Some n \<and> n \<noteq> [] \<and> find_first (\<lambda>r. rule_name r = n) (rules s) = Some r \<longrightarrow>
      r \<in> set (rules s) \<and> rule_name r = n \<and>
      (edit_rule_execute s ruleName explanation condition
         :: Payload \<times> ('a, 'b, 'c) StoreCall list) =
        (Success,
         [SafeUpdateRule
            \<lparr>upd_ruleId = rule_id r, upd_name = rule_name r, upd_condition = condition,
             upd_actions = rule_actions r, upd_userId = user_id s,
             upd_groupId = None, upd_categoryIds = None\<rparr>])) \<and>
   (ruleName = Some n \<and> n \<noteq> [] \<and> (\<forall>r\<in>set (rules s). rule_name r \<noteq> n) \<longrightarrow>
      (edit_rule_execute s ruleName explanation condition
         :: Payload \<times> ('a, 'b, 'c) StoreCall list) = (Error ''Rule not found'', [])) \<and>
   ((ruleName = None \<or> ruleName = Some []) \<and> matchedRule s = Some r \<longrightarrow>
      (edit_rule_execute s ruleName explanation condition
         :: Payload \<times> ('a, 'b, 'c) StoreCall list) =
        (Success,
         [SafeUpdateRule
            \<lparr>upd_ruleId = rule_id r, upd_name = rule_name r, upd_condition = condition,
             upd_actions = rule_actions r, upd_userId = user_id s,
             upd_groupId = None, upd_categoryIds = None\<rparr>])) \<and>
   ((ruleName = None \<or> ruleName = Some []) \<and> matchedRule s = None \<longrightarrow>
      (edit_rule_execute s ruleName explanation condition
         :: Payload \<times> ('a, 'b, 'c) StoreCall list) = (Error ''Rule not found'', []))"
proof -
  have none: "find_first (\<lambda>r. rule_name r = n) (rules s) = None"
    if "\<forall>r\<in>set (rules s). rule_name r \<noteq> n"
    using that by (simp add: find_first_None_iff)
  show ?thesis
    using none find_first_SomeD [of "\<lambda>r. rule_name r = n" "rules s" r]
    by (auto simp: edit_rule_execute_def)
qed

theorem edit_rule_resolution_witness:
  "edit_rule_execute session_matched (Some ''Newsletter'') ''add a subject'' (7::nat) =
     (Success,
      [SafeUpdateRule
         \<lparr>upd_ruleId = ''r1'', upd_name = ''Newsletter'', upd_condition = 7,
          upd_actions = [1], upd_userId = ''u1'',
          upd_groupId = None, upd_categoryIds = None\<rparr>]
      :: (nat, nat, nat) StoreCall list) \<and>
   edit_rule_execute session_matched (Some ''Billing'') ''add a subject'' (7::nat) =
     (Error ''Rule not found'', [] :: (nat, nat, nat) StoreCall list) \<and>
   edit_rule_execute session_matched None ''add a subject'' (7::nat) =
     (Success,
      [SafeUpdateRule
         \<lparr>upd_ruleId = ''r2'', upd_name = ''Receipts'', upd_condition = 7,
          upd_actions = [2], upd_userId = ''u1'',
          upd_groupId = None, upd_categoryIds = None\<rparr>]
      :: (nat, nat, nat) StoreCall list) \<and>
   edit_rule_execute session_unmatched None ''add a subject'' (7::nat) =
     (Error ''Rule not found'', [] :: (nat, nat, nat) StoreCall list)"
  using
    edit_rule_resolution [of "Some ''Newsletter''" "''Newsletter''" session_matched newsletter
      "''add a subject''" "7::nat", where ?'b = nat]
    edit_rule_resolution [of "Some ''Billing''" "''Billing''" session_matched newsletter
      "''add a subject''" "7::nat", where ?'b = nat]
    edit_rule_resolution [of None "[]" session_matched receipts "''add a subject''" "7::nat",
      where ?'b = nat]
    edit_rule_resolution [of None "[]" session_unmatched receipts "''add a subject''" "7::nat",
      where ?'b = nat]
  by (simp add: session_matched_def session_unmatched_def newsletter_def receipts_def)

text \<open>
  C1 as stated fails for the empty name: in a session whose rules are named
  \<^verbatim>\<open>Newsletter\<close> and \<^verbatim>\<open>Receipts\<close>, a call with \<^verbatim>\<open>ruleName = ""\<close> names no rule,
  yet the tool updates the matched rule instead of returning the error.
\<close>

theorem edit_rule_empty_name_counterexample:
  "map rule_name (rules session_matched) = [''Newsletter'', ''Receipts''] \<and>
   edit_rule_execute session_matched (Some '''') ''add a subject'' (7::nat) =
     (Success,
      [SafeUpdateRule
         \<lparr>upd_ruleId = ''r2'', upd_name = ''Receipts'', upd_condition = 7,
          upd_actions = [2], upd_userId = ''u1'',
          upd_groupId = None, upd_categoryIds = None\<rparr>]
      :: (nat, nat, nat) StoreCall list)"
  by (simp add: edit_rule_execute_def session_matched_def newsletter_def receipts_def)

text \<open>
  C4. When \<^verbatim>\<open>edit_rule\<close> succeeds, it has made exactly one store call, an update of a
  rule of the session (one of the rule set, or the matched rule): the request carries that
  rule's id, its name and its actions as they are, the condition of the call, and
  \<^verbatim>\<open>null\<close> for both the group and the category linkage.
\<close>

theorem edit_rule_keeps_name_and_actions:
  "edit_rule_execute s ruleName explanation condition
     = (Success, calls :: ('a, 'b, 'c) StoreCall list) \<Longrightarrow>
   \<exists>r q. (r \<in> set (rules s) \<or> matchedRule s = Some r) \<and>
         calls = [SafeUpdateRule q] \<and>
         upd_ruleId q = rule_id r \<and> upd_name q = rule_name r \<and>
         upd_actions q = rule_actions r \<and> upd_condition q = condition \<and>
         upd_userId q = user_id s \<and> upd_groupId q = None \<and> upd_categoryIds q = None"
  by (auto simp: edit_rule_execute_def Let_def split: option.splits if_splits
      dest!: find_first_SomeD)

theorem edit_rule_keeps_name_and_actions_witness:
  "edit_rule_execute session_unmatched (Some ''Newsletter'') ''add a subject'' (7::nat) =
     (Success,
      [SafeUpdateRule
         \<lparr>upd_ruleId = ''r1'', upd_name = ''Newsletter'', upd_condition = 7,
          upd_actions = [1], upd_userId = ''u1'',
          upd_groupId = None, upd_categoryIds = None\<rparr>]
      :: (nat, nat, nat) StoreCall list) \<and>
   (\<exists>r q. (r \<in> set (rules session_unmatched) \<or> matchedRule session_unmatched = Some r) \<and>
         [SafeUpdateRule
            \<lparr>upd_ruleId = ''r1'', upd_name = ''Newsletter'', upd_condition = 7,
             upd_actions = [1], upd_userId = ''u1'',
             upd_groupId = None, upd_categoryIds = None\<rparr>]
           = [SafeUpdateRule q :: (nat, nat, nat) StoreCall] \<and>
         upd_ruleId q = rule_id r \<and> upd_name q = rule_name r \<and>
         upd_actions q = rule_actions r \<and> upd_condition q = 7 \<and>
         upd_userId q = user_id session_unmatched \<and>
         upd_groupId q = None \<and> upd_categoryIds q = None)"
proof -
  have run:
    "edit_rule_execute session_unmatched (Some ''Newsletter'') ''add a subject'' (7::nat) =
       (Success,
        [SafeUpdateRule
           \<lparr>upd_ruleId = ''r1'', upd_name = ''Newsletter'', upd_condition = 7,
            upd_actions = [1], upd_userId = ''u1'',
            upd_groupId = None, upd_categoryIds = None\<rparr>]
        :: (nat, nat, nat) StoreCall list)"
    by (simp add: edit_rule_execute_def session_unmatched_def newsletter_def)
  from edit_rule_keeps_name_and_actions [OF run] run show ?thesis by blast
qed

text \<open>
  C5. \<^verbatim>\<open>remove_from_group\<close> deletes only an item of the matched rule's group whose type
  is the requested one and whose value equals the requested value: every delete call it
  makes carries the id of such an item. When the group holds no such item (or there is no
  matched rule, group or item list), the tool returns
  \<^verbatim>\<open>{ error: "Group item not found" }\<close> and makes no store call.
\<close>

theorem remove_from_group_exact_match:
  "((\<forall>i\<in>set (matched_group_items s).
        \<not> (item_type i = requested_type type \<and> item_value i = value))
      \<longrightarrow> (remove_from_group_execute s type value
             :: Payload \<times> ('a, 'b, 'c) StoreCall list) = (Error ''Group item not found'', [])) \<and>
   (DeleteGroupItem iid uid
      \<in> set (snd (remove_from_group_execute s type value
                    :: Payload \<times> ('a, 'b, 'c) StoreCall list))
      \<longrightarrow> (\<exists>i\<in>set (matched_group_items s).
             item_id i = iid \<and> item_type i = requested_type type \<and> item_value i = value))"
  by (cases type)
    (auto simp: remove_from_group_execute_def getGroupItemType_def matched_group_items_def
      Let_def find_first_None_iff split: option.splits dest!: find_first_SomeD)

theorem remove_from_group_exact_match_witness:
  "remove_from_group_execute session_matched Arg_subject ''thanks'' =
     (Error ''Group item not found'', [] :: (nat, nat, nat) StoreCall list) \<and>
   remove_from_group_execute session_matched Arg_subject ''Invoice'' =
     (Success, [DeleteGroupItem ''i1'' ''u1''] :: (nat, nat, nat) StoreCall list) \<and>
   (\<exists>i\<in>set (matched_group_items session_matched).
      item_id i = ''i1'' \<and> item_type i = SUBJECT \<and> item_value i = ''Invoice'')"
proof -
  have absent: "\<forall>i\<in>set (matched_group_items session_matched).
      \<not> (item_type i = requested_type Arg_subject \<and> item_value i = ''thanks'')"
    by (simp add: matched_group_items_def session_matched_def receipts_def)
  have run: "remove_from_group_execute session_matched Arg_subject ''Invoice'' =
     (Success, [DeleteGroupItem ''i1'' ''u1''] :: (nat, nat, nat) StoreCall list)"
    by (simp add: remove_from_group_execute_def getGroupItemType_def session_matched_def
        receipts_def)
  from remove_from_group_exact_match
         [of session_matched Arg_subject "''thanks''" "''i1''" "''u1''",
          where ?'b = nat and ?'c = nat]
       remove_from_group_exact_match
         [of session_matched Arg_subject "''Invoice''" "''i1''" "''u1''",
          where ?'b = nat and ?'c = nat]
       absent run
  show ?thesis by simp
qed

text \<open>
  C10. \<^verbatim>\<open>add_to_group\<close> without a \<^verbatim>\<open>groupName\<close> returns
  \<^verbatim>\<open>{ error: "Group not found" }\<close> and makes no store call, whatever the session's
  rules and matched rule are: a rule that the lookup \<^verbatim>\<open>r.group?.name === undefined\<close>
  selects has no group, so no group id comes out of it.
\<close>

theorem add_to_group_without_name:
  "(add_to_group_execute s None type value :: Payload \<times> ('a, 'b, 'c) StoreCall list)
     = (Error ''Group not found'', []) \<and>
   (\<forall>r. find_first (\<lambda>r. map_option group_name (rule_group r) = None) (rules s) = Some r
        \<longrightarrow> rule_group r = None)"
  by (auto simp: add_to_group_execute_def Let_def split: option.splits dest!: find_first_SomeD)

theorem add_to_group_without_name_witness:
  "find_first (\<lambda>r. map_option group_name (rule_group r) = None) (rules session_matched)
     = Some newsletter \<and>
   rule_group newsletter = None \<and>
   (\<exists>g. map_option rule_group (matchedRule session_matched) = Some (Some g)) \<and>
   add_to_group_execute session_matched None Arg_from ''@company.com'' =
     (Error ''Group not found'', [] :: (nat, nat, nat) StoreCall list)"
proof -
  have sel: "find_first (\<lambda>r. map_option group_name (rule_group r) = None)
               (rules session_matched) = Some newsletter"
    by (simp add: session_matched_def newsletter_def)
  have grp: "\<exists>g. map_option rule_group (matchedRule session_matched) = Some (Some g)"
    by (simp add: session_matched_def receipts_def)
  from add_to_group_without_name
         [of session_matched Arg_from "''@company.com''", where ?'b = nat and ?'c = nat]
       sel grp
  show ?thesis by blast
qed

text \<open>
  C8. The registry of a session holds \<^verbatim>\<open>change_sender_category\<close> exactly when the
  session's category list is not \<^verbatim>\<open>null\<close>, and \<^verbatim>\<open>remove_from_group\<close> exactly when
  there is a matched rule and it has a group; \<^verbatim>\<open>edit_rule\<close>, \<^verbatim>\<open>create_rule\<close>,
  \<^verbatim>\<open>add_to_group\<close> and \<^verbatim>\<open>reply\<close> are in the registry of every session.
\<close>

theorem tools_registry:
  "(''change_sender_category'' \<in> set (tools s) \<longleftrightarrow> categories s \<noteq> None) \<and>
   (''remove_from_group'' \<in> set (tools s)
      \<longleftrightarrow> (\<exists>r g. matchedRule s = Some r \<and> rule_group r = Some g)) \<and>
   ''edit_rule'' \<in> set (tools s) \<and> ''create_rule'' \<in> set (tools s) \<and>
   ''add_to_group'' \<in> set (tools s) \<and> ''reply'' \<in> set (tools s)"
  by (auto simp: tools_def split: option.splits)

subsection \<open>The rule serializer\<close>

text \<open>
  C2, at the input where the source departs from it: a rule whose group \<^verbatim>\<open>Receipts\<close> has
  the empty array as its item list. An array is truthy in JavaScript, so the serializer
  joins the (no) items instead of printing the marker: the group condition carries the
  group's name and an empty line between the \<^verbatim>\<open>group_items\<close> tags, and the text
  \<^verbatim>\<open>No group items\<close> occurs nowhere in the output.
\<close>

theorem ruleToXML_empty_item_list:
  "ruleToXML receipts_no_items =
     ''<rule>'' @ NL @
     ''  <rule_name>Receipts</rule_name>'' @ NL @
     ''  <conditions>'' @ NL @
     ''    <conditional_operator>AND</conditional_operator>'' @ NL @
     ''    '' @ NL @
     ''    '' @ NL @
     ''    <group_condition>'' @ NL @
     ''      <group>Receipts</group>'' @ NL @
     ''      <group_items>'' @ NL @
     ''        '' @ NL @
     ''      </group_items>'' @ NL @
     ''    </group_condition>'' @ NL @
     ''    '' @ NL @
     ''  </conditions>'' @ NL @
     ''</rule>'' \<and>
   \<not> sublist ''No group items'' (ruleToXML receipts_no_items)"
proof -
  have out: "ruleToXML receipts_no_items =
     ''<rule>'' @ NL @
     ''  <rule_name>Receipts</rule_name>'' @ NL @
     ''  <conditions>'' @ NL @
     ''    <conditional_operator>AND</conditional_operator>'' @ NL @
     ''    '' @ NL @
     ''    '' @ NL @
     ''    <group_condition>'' @ NL @
     ''      <group>Receipts</group>'' @ NL @
     ''      <group_items>'' @ NL @
     ''        '' @ NL @
     ''      </group_items>'' @ NL @
     ''    </group_condition>'' @ NL @
     ''    '' @ NL @
     ''  </conditions>'' @ NL @
     ''</rule>''"
    by (simp add: ruleToXML_def receipts_no_items_def hasStaticConditions_def js_or_def
        hasCategoryConditions_def)
  have "\<not> sublist ''No group items'' (ruleToXML receipts_no_items)"
    unfolding out by (simp add: NL_def sublist_code(3))
  with out show ?thesis by simp
qed

text \<open>
  C3. A static field is set when it holds a non-empty string. For every rule there are two
  texts, the first holding the element of the conditional operator, such that whatever
  the fields \<^verbatim>\<open>from\<close>, \<^verbatim>\<open>to\<close>, \<^verbatim>\<open>subject\<close> and \<^verbatim>\<open>body\<close> are changed to, the
  serialized rule is the first text, the static-conditions block of the four values, and
  the second text. So the set fields stand together in one block after the operator, each
  field that is not set is left out of it, and with no field set there is no block. In
  particular this is the form of the rule's own serialization.
\<close>

theorem static_conditions_single_block:
  "\<exists>pre post.
     sublist (''<conditional_operator>'' @ LogicalOperator_string (rule_conditionalOperator r)
                @ ''</conditional_operator>'') pre \<and>
     (\<forall>f t sb b.
        ruleToXML (r\<lparr>rule_from := f, rule_to := t, rule_subject := sb, rule_body := b\<rparr>)
          = pre @ static_conditions_block f t sb b @ post) \<and>
     ruleToXML r
       = pre @ static_conditions_block (rule_from r) (rule_to r) (rule_subject r) (rule_body r)
           @ post"
proof -
  from ruleToXML_static_context [of r] obtain pre post where
    op: "sublist (''<conditional_operator>'' @ LogicalOperator_string (rule_conditionalOperator r)
                @ ''</conditional_operator>'') pre" and
    ctx: "\<forall>f t sb b.
        ruleToXML (r\<lparr>rule_from := f, rule_to := t, rule_subject := sb, rule_body := b\<rparr>)
          = pre @ static_conditions_block f t sb b @ post"
    by blast
  have "r\<lparr>rule_from := rule_from r, rule_to := rule_to r, rule_subject := rule_subject r,
          rule_body := rule_body r\<rparr> = r"
    by simp
  with ctx have "ruleToXML r
       = pre @ static_conditions_block (rule_from r) (rule_to r) (rule_subject r) (rule_body r)
           @ post"
    by metis
  with op ctx show ?thesis by blast
qed

text \<open>
  C9. The serializer does not tell an empty string in \<^verbatim>\<open>from\<close>, \<^verbatim>\<open>to\<close>,
  \<^verbatim>\<open>subject\<close> or \<^verbatim>\<open>body\<close> from an absent field: the output for the empty string is
  the output for \<^verbatim>\<open>null\<close>. When each of the four fields is absent or the empty string,
  \<^verbatim>\<open>hasStaticConditions\<close> is falsy and the output has no static-conditions block: it
  is the bare text around the place of the block.
\<close>

theorem empty_static_field_as_absent:
  "ruleToXML (r\<lparr>rule_from := Some []\<rparr>) = ruleToXML (r\<lparr>rule_from := None\<rparr>) \<and>
   ruleToXML (r\<lparr>rule_to := Some []\<rparr>) = ruleToXML (r\<lparr>rule_to := None\<rparr>) \<and>
   ruleToXML (r\<lparr>rule_subject := Some []\<rparr>) = ruleToXML (r\<lparr>rule_subject := None\<rparr>) \<and>
   ruleToXML (r\<lparr>rule_body := Some []\<rparr>) = ruleToXML (r\<lparr>rule_body := None\<rparr>) \<and>
   ((rule_from r = None \<or> rule_from r = Some []) \<and>
    (rule_to r = None \<or> rule_to r = Some []) \<and>
    (rule_subject r = None \<or> rule_subject r = Some []) \<and>
    (rule_body r = None \<or> rule_body r = Some []) \<longrightarrow>
      \<not> truthy (hasStaticConditions r) \<and>
      (\<exists>pre post.
         ruleToXML r = pre @ post \<and>
         (\<forall>f t sb b.
            ruleToXML (r\<lparr>rule_from := f, rule_to := t, rule_subject := sb, rule_body := b\<rparr>)
              = pre @ static_conditions_block f t sb b @ post)))"
proof -
  have same:
    "ruleToXML (r\<lparr>rule_from := Some []\<rparr>) = ruleToXML (r\<lparr>rule_from := None\<rparr>) \<and>
     ruleToXML (r\<lparr>rule_to := Some []\<rparr>) = ruleToXML (r\<lparr>rule_to := None\<rparr>) \<and>
     ruleToXML (r\<lparr>rule_subject := Some []\<rparr>) = ruleToXML (r\<lparr>rule_subject := None\<rparr>) \<and>
     ruleToXML (r\<lparr>rule_body := Some []\<rparr>) = ruleToXML (r\<lparr>rule_body := None\<rparr>)"
    by (simp add: ruleToXML_def hasStaticConditions_def js_or_def hasCategoryConditions_def
        cong: if_cong)
  have none: "\<not> truthy (hasStaticConditions r) \<and>
      (\<exists>pre post.
         ruleToXML r = pre @ post \<and>
         (\<forall>f t sb b.
            ruleToXML (r\<lparr>rule_from := f, rule_to := t, rule_subject := sb, rule_body := b\<rparr>)
              = pre @ static_conditions_block f t sb b @ post))"
    if unset: "rule_from r = None \<or> rule_from r = Some []"
      "rule_to r = None \<or> rule_to r = Some []"
      "rule_subject r = None \<or> rule_subject r = Some []"
      "rule_body r = None \<or> rule_body r = Some []"
  proof -
    from unset have ns: "\<not> is_set (rule_from r)" "\<not> is_set (rule_to r)"
      "\<not> is_set (rule_subject r)" "\<not> is_set (rule_body r)"
      by (auto simp: is_set_def)
    then have falsy: "\<not> truthy (hasStaticConditions r)"
      by (simp add: truthy_hasStaticConditions)
    from ruleToXML_static_context [of r] obtain pre post where
      ctx: "\<forall>f t sb b.
        ruleToXML (r\<lparr>rule_from := f, rule_to := t, rule_subject := sb, rule_body := b\<rparr>)
          = pre @ static_conditions_block f t sb b @ post"
      by blast
    have "r\<lparr>rule_from := rule_from r, rule_to := rule_to r, rule_subject := rule_subject r,
          rule_body := rule_body r\<rparr> = r"
      by simp
    with ctx have "ruleToXML r
       = pre @ static_conditions_block (rule_from r) (rule_to r) (rule_subject r) (rule_body r)
           @ post"
      by metis
    with ns have "ruleToXML r = pre @ post"
      by (simp add: static_conditions_block_def)
    with falsy ctx show ?thesis by blast
  qed
  from same none show ?thesis by blast
qed

theorem empty_static_field_as_absent_witness:
  "rule_from (newsletter\<lparr>rule_from := Some [], rule_subject := Some []\<rparr>) = Some [] \<and>
   rule_to (newsletter\<lparr>rule_from := Some [], rule_subject := Some []\<rparr>) = None \<and>
   rule_subject (newsletter\<lparr>rule_from := Some [], rule_subject := Some []\<rparr>) = Some [] \<and>
   rule_body (newsletter\<lparr>rule_from := Some [], rule_subject := Some []\<rparr>) = None \<and>
   \<not> truthy (hasStaticConditions (newsletter\<lparr>rule_from := Some [], rule_subject := Some []\<rparr>))"
  using empty_static_field_as_absent
          [of "newsletter\<lparr>rule_from := Some [], rule_subject := Some []\<rparr>"]
  by (simp add: newsletter_def)

subsection \<open>The orchestrator\<close>

text \<open>
  C6. The \<^verbatim>\<open>reply\<close> tool has no execute function. When the decision-maker chooses it,
  the session ends at once, whatever is left of the budget: the result is the
  conversation so far with the call appended, the message of the call as the terminal
  reply, and the store calls made before, with none added. So in the log that
  \<^verbatim>\<open>processUserRequest\<close> returns, nothing follows a call of \<^verbatim>\<open>reply\<close>, and the call
  was not executed.
\<close>

theorem reply_ends_session:
  "execute s (Reply content) = None \<and>
   (dm conv = Call (Reply content) \<longrightarrow>
      chatCompletionTools (Suc n) dm s conv st =
        \<lparr>terminalReply = Some content, toolCallLog = conv @ [(Reply content, NoExecute)],
         storeCalls = st\<rparr>) \<and>
   (toolCallLog (processUserRequest dm s) = xs @ (Reply c, res) # ys \<longrightarrow>
      ys = [] \<and> res = NoExecute \<and> terminalReply (processUserRequest dm s) = Some c)"
proof -
  have step: "chatCompletionTools (Suc n) dm s conv st =
        \<lparr>terminalReply = Some content, toolCallLog = conv @ [(Reply content, NoExecute)],
         storeCalls = st\<rparr>"
    if "dm conv = Call (Reply content)"
    using that reply_in_tools [of s] by simp
  have last: "ys = [] \<and> res = NoExecute \<and> terminalReply (processUserRequest dm s) = Some c"
    if log: "toolCallLog (processUserRequest dm s) = xs @ (Reply c, res) # ys"
  proof -
    from reply_only_last [of "[]" maxSteps dm s "[]"]
    consider "reply_free (toolCallLog (processUserRequest dm s))"
      | bl c' where "toolCallLog (processUserRequest dm s) = bl @ [(Reply c', NoExecute)]"
          "reply_free bl" "terminalReply (processUserRequest dm s) = Some c'"
      by (auto simp: processUserRequest_def reply_free_def)
    then show ?thesis
    proof cases
      case 1
      with log show ?thesis by (simp add: reply_free_def)
    next
      case 2
      from 2(1) log have eq: "xs @ (Reply c, res) # ys = bl @ [(Reply c', NoExecute)]"
        by simp
      have "ys = []"
      proof (rule ccontr)
        assume "ys \<noteq> []"
        then obtain ys' y where "ys = ys' @ [y]" by (metis rev_exhaust)
        with eq have "xs @ (Reply c, res) # ys' = bl" by simp
        then have "(Reply c, res) \<in> set bl" by auto
        with 2(2) show False by (auto simp: reply_free_def list_all_iff)
      qed
      with eq 2(3) show ?thesis by simp
    qed
  qed
  from step last show ?thesis by simp
qed

theorem reply_ends_session_witness:
  "(\<lambda>conv. if conv = [] then Call (Edit_rule (Some ''Newsletter'') ''add a subject'' (7::nat))
            else Call (Reply ''Done.''))
     [(Edit_rule (Some ''Newsletter'') ''add a subject'' 7, Executed Success)]
     = (Call (Reply ''Done.'') :: (nat, nat) Decision) \<and>
   toolCallLog
     (processUserRequest
        (\<lambda>conv. if conv = [] then Call (Edit_rule (Some ''Newsletter'') ''add a subject'' 7)
                 else Call (Reply ''Done.''))
        session_unmatched :: (nat, nat, nat) SessionResult)
     = [(Edit_rule (Some ''Newsletter'') ''add a subject'' 7, Executed Success)]
         @ (Reply ''Done.'', NoExecute) # [] \<and>
   terminalReply
     (processUserRequest
        (\<lambda>conv. if conv = [] then Call (Edit_rule (Some ''Newsletter'') ''add a subject'' 7)
                 else Call (Reply ''Done.''))
        session_unmatched :: (nat, nat, nat) SessionResult)
     = Some ''Done.''"
proof -
  let ?dm = "\<lambda>conv :: ((nat, nat) ToolCall \<times> StepResult) list.
               if conv = [] then Call (Edit_rule (Some ''Newsletter'') ''add a subject'' (7::nat))
               else Call (Reply ''Done.'')"
  let ?conv = "[(Edit_rule (Some ''Newsletter'') ''add a subject'' (7::nat), Executed Success)]
                 :: ((nat, nat) ToolCall \<times> StepResult) list"
  have choice: "?dm ?conv = Call (Reply ''Done.'')"
    by simp
  have log: "toolCallLog (processUserRequest ?dm session_unmatched :: (nat, nat, nat) SessionResult)
               = ?conv @ (Reply ''Done.'', NoExecute) # []"
    by (simp add: processUserRequest_def maxSteps_def eval_nat_numeral tools_def
        edit_rule_execute_def session_unmatched_def newsletter_def)
  from reply_ends_session
         [of session_unmatched "''Done.''" ?dm ?conv 3 "[]" ?conv "''Done.''" NoExecute "[]"]
       choice log
  show ?thesis by simp
qed

text \<open>
  C7. The step budget is 5. \<^verbatim>\<open>processUserRequest\<close> always returns, and what it
  returns is the accumulated log of the session: the log has at most 5 entries, so at
  most 5 tool calls were executed; every entry is the call that the decision-maker chose
  on the entries before it, with the outcome of that call; the calls made to the store are
  those of the logged calls, in order, and no others; and a log of fewer than 5 entries
  means that the decision-maker ended the session, by a free-text reply or by the
  \<^verbatim>\<open>reply\<close> tool. With a decision-maker that calls a tool other than \<^verbatim>\<open>reply\<close> at
  every step, the session stops when the budget is used up: the result has no terminal
  reply and its log holds the 5 calls.
\<close>

theorem budget_bound:
  "maxSteps = 5 \<and>
   length (toolCallLog (processUserRequest dm s)) \<le> maxSteps \<and>
   length (filter (\<lambda>e. executed (snd e)) (toolCallLog (processUserRequest dm s))) \<le> maxSteps \<and>
   (\<forall>i < length (toolCallLog (processUserRequest dm s)).
      dm (take i (toolCallLog (processUserRequest dm s)))
        = Call (fst (toolCallLog (processUserRequest dm s) ! i)) \<and>
      snd (toolCallLog (processUserRequest dm s) ! i)
        = fst (step_outcome s (fst (toolCallLog (processUserRequest dm s) ! i)))) \<and>
   storeCalls (processUserRequest dm s)
     = concat (map (\<lambda>e. snd (step_outcome s (fst e))) (toolCallLog (processUserRequest dm s))) \<and>
   (length (toolCallLog (processUserRequest dm s)) < maxSteps \<longrightarrow>
      (\<exists>t. dm (toolCallLog (processUserRequest dm s)) = Text t
           \<and> terminalReply (processUserRequest dm s) = Some t) \<or>
      (\<exists>c. toolCallLog (processUserRequest dm s) \<noteq> []
           \<and> last (toolCallLog (processUserRequest dm s)) = (Reply c, NoExecute)
           \<and> terminalReply (processUserRequest dm s) = Some c)) \<and>
   ((\<forall>conv. \<exists>tc. dm conv = Call tc \<and> toolName tc \<noteq> ''reply'') \<longrightarrow>
      terminalReply (processUserRequest dm s) = None \<and>
      length (toolCallLog (processUserRequest dm s)) = maxSteps)"
proof -
  let ?R = "chatCompletionTools maxSteps dm s [] []"
  from run_trace [of maxSteps dm s "[]" "[]"] obtain ys where
    ys: "toolCallLog ?R = ys" "length ys \<le> maxSteps" "steps_of dm s [] ys"
      "storeCalls ?R = concat (map (\<lambda>e. snd (step_outcome s (fst e))) ys)"
      "length ys < maxSteps \<longrightarrow>
           (\<exists>t. dm ys = Text t \<and> terminalReply ?R = Some t) \<or>
           (\<exists>c. ys \<noteq> [] \<and> last ys = (Reply c, NoExecute) \<and> terminalReply ?R = Some c)"
    by auto
  have entries: "\<forall>i < length ys.
      dm (take i ys) = Call (fst (ys ! i)) \<and>
      snd (ys ! i) = fst (step_outcome s (fst (ys ! i)))"
    using steps_of_nth [OF ys(3)] by simp
  have exec: "length (filter (\<lambda>e. executed (snd e)) ys) \<le> maxSteps"
    using ys(2) length_filter_le [of "\<lambda>e. executed (snd e)" ys] by linarith
  have never: "terminalReply ?R = None \<and> length (toolCallLog ?R) = maxSteps"
    if "\<forall>conv. \<exists>tc. dm conv = Call tc \<and> toolName tc \<noteq> ''reply''"
    using never_terminal_runs_budget [OF that, of maxSteps s "[]" "[]"] by simp
  have five: "maxSteps = 5" by (simp add: maxSteps_def)
  show ?thesis
    unfolding processUserRequest_def ys(1)
    using five ys(2) exec entries ys(4) ys(5) never [unfolded ys(1)]
    by blast
qed

theorem budget_bound_witness:
  "(\<forall>conv. \<exists>tc. keeps_adding conv = Call tc \<and> toolName tc \<noteq> ''reply'') \<and>
   terminalReply (processUserRequest keeps_adding session_matched) = None \<and>
   length (toolCallLog (processUserRequest keeps_adding session_matched)) = maxSteps \<and>
   processUserRequest keeps_adding session_matched =
     \<lparr>terminalReply = None,
      toolCallLog =
        [(Add_to_group (Some ''Receipts'') Arg_from ''@shop.com'', Executed Success),
         (Add_to_group (Some ''Receipts'') Arg_from ''@shop.com'', Executed Success),
         (Add_to_group (Some ''Receipts'') Arg_from ''@shop.com'', Executed Success),
         (Add_to_group (Some ''Receipts'') Arg_from ''@shop.com'', Executed Success),
         (Add_to_group (Some ''Receipts'') Arg_from ''@shop.com'', Executed Success)],
      storeCalls =
        [AddGroupItem ''g1'' FROM ''@shop.com'', AddGroupItem ''g1'' FROM ''@shop.com'',
         AddGroupItem ''g1'' FROM ''@shop.com'', AddGroupItem ''g1'' FROM ''@shop.com'',
         AddGroupItem ''g1'' FROM ''@shop.com'']\<rparr> \<and>
   length (toolCallLog (processUserRequest edits_then_replies session_unmatched)) < maxSteps \<and>
   ((\<exists>t. edits_then_replies (toolCallLog (processUserRequest edits_then_replies session_unmatched))
           = Text t
         \<and> terminalReply (processUserRequest edits_then_replies session_unmatched) = Some t) \<or>
    (\<exists>c. toolCallLog (processUserRequest edits_then_replies session_unmatched) \<noteq> []
         \<and> last (toolCallLog (processUserRequest edits_then_replies session_unmatched))
             = (Reply c, NoExecute)
         \<and> terminalReply (processUserRequest edits_then_replies session_unmatched) = Some c)) \<and>
   processUserRequest edits_then_replies session_unmatched =
     \<lparr>terminalReply = Some ''Done.'',
      toolCallLog =
        [(Edit_rule (Some ''Newsletter'') ''add a subject'' 7, Executed Success),
         (Reply ''Done.'', NoExecute)],
      storeCalls =
        [SafeUpdateRule
           \<lparr>upd_ruleId = ''r1'', upd_name = ''Newsletter'', upd_condition = 7,
            upd_actions = [1], upd_userId = ''u1'',
            upd_groupId = None, upd_categoryIds = None\<rparr>]\<rparr>"
proof -
  let ?tc = "Add_to_group (Some ''Receipts'') Arg_from ''@shop.com'' :: (nat, nat) ToolCall"
  have never: "\<forall>conv. \<exists>tc. keeps_adding conv = Call tc \<and> toolName tc \<noteq> ''reply''"
    by (simp add: keeps_adding_def)
  have exposed: "toolName ?tc \<in> set (tools session_matched)"
    by (simp add: tools_def)
  have exec: "execute session_matched ?tc
     = Some (Success, [AddGroupItem ''g1'' FROM ''@shop.com''] :: (nat, nat, nat) StoreCall list)"
    by (simp add: add_to_group_execute_def getGroupItemType_def session_matched_def
        newsletter_def receipts_def)
  have step: "chatCompletionTools (Suc n) keeps_adding session_matched conv st
      = chatCompletionTools n keeps_adding session_matched
          (conv @ [(?tc, Executed Success)]) (st @ [AddGroupItem ''g1'' FROM ''@shop.com''])"
    for n conv and st :: "(nat, nat, nat) StoreCall list"
    using exposed exec by (simp add: keeps_adding_def del: execute.simps toolName.simps)
  have run: "processUserRequest keeps_adding session_matched =
     \<lparr>terminalReply = None,
      toolCallLog =
        [(Add_to_group (Some ''Receipts'') Arg_from ''@shop.com'', Executed Success),
         (Add_to_group (Some ''Receipts'') Arg_from ''@shop.com'', Executed Success),
         (Add_to_group (Some ''Receipts'') Arg_from ''@shop.com'', Executed Success),
         (Add_to_group (Some ''Receipts'') Arg_from ''@shop.com'', Executed Success),
         (Add_to_group (Some ''Receipts'') Arg_from ''@shop.com'', Executed Success)],
      storeCalls =
        [AddGroupItem ''g1'' FROM ''@shop.com'', AddGroupItem ''g1'' FROM ''@shop.com'',
         AddGroupItem ''g1'' FROM ''@shop.com'', AddGroupItem ''g1'' FROM ''@shop.com'',
         AddGroupItem ''g1'' FROM ''@shop.com'']\<rparr>"
    by (simp add: processUserRequest_def maxSteps_def eval_nat_numeral step
        del: chatCompletionTools.simps(2))
  have run2: "processUserRequest edits_then_replies session_unmatched =
     \<lparr>terminalReply = Some ''Done.'',
      toolCallLog =
        [(Edit_rule (Some ''Newsletter'') ''add a subject'' 7, Executed Success),
         (Reply ''Done.'', NoExecute)],
      storeCalls =
        [SafeUpdateRule
           \<lparr>upd_ruleId = ''r1'', upd_name = ''Newsletter'', upd_condition = 7,
            upd_actions = [1], upd_userId = ''u1'',
            upd_groupId = None, upd_categoryIds = None\<rparr>]\<rparr>"
    by (simp add: processUserRequest_def maxSteps_def eval_nat_numeral tools_def
        edit_rule_execute_def edits_then_replies_def session_unmatched_def newsletter_def)
  have short:
    "length (toolCallLog (processUserRequest edits_then_replies session_unmatched)) < maxSteps"
    by (simp add: run2 maxSteps_def)
  note full =
    budget_bound [of keeps_adding session_matched, THEN conjunct2, THEN conjunct2,
      THEN conjunct2, THEN conjunct2, THEN conjunct2, THEN conjunct2, THEN mp, OF never]
  note ended =
    budget_bound [of edits_then_replies session_unmatched, THEN conjunct2, THEN conjunct2,
      THEN conjunct2, THEN conjunct2, THEN conjunct2, THEN conjunct1, THEN mp, OF short]
  from never full [THEN conjunct1] full [THEN conjunct2] run short ended run2
  show ?thesis by (intro conjI)
qed

end
